theory Spec2Isabelle
  imports Main
begin

section \<open>The floating sync launcher (sync\_app/public/js/sync\_global.js)\<close>

text \<open>
  The script is one jQuery ready handler. It reads the global \<open>frappe\<close>, builds a small
  DOM subtree, binds four click handlers and, from two of them, opens a confirmation
  dialog whose acceptance issues a remote call. The page is modelled as a record that the
  handlers pass along; every function literal of the source becomes a constructor of a
  datatype (the closures capture nothing that differs between two runs of the script).

  \<open>frappe.confirm\<close>, \<open>frappe.call\<close>, \<open>frappe.msgprint\<close> and jQuery belong to the host page.
  Their part of the model is what the script relies on: a confirmation dialog stays open
  until the user answers it and runs its callback on acceptance only; a remote call is
  recorded with its options and its callback runs when the response arrives; a notice is
  recorded with the value it was given; \<open>$('#id')\<close> matches the first element of the
  document that carries the identifier, a descendant selector matches every such element.
\<close>

subsection \<open>JavaScript values of the response fields\<close>

datatype jsval = JUndefined | JNull | JBool bool | JNum int | JStr string

text \<open>\<open>!v\<close> is true exactly for the falsy values.\<close>

fun truthy :: "jsval \<Rightarrow> bool" where
  "truthy JUndefined = False"
| "truthy JNull = False"
| "truthy (JBool b) = b"
| "truthy (JNum n) = (n \<noteq> 0)"
| "truthy (JStr s) = (s \<noteq> [])"

subsection \<open>The document\<close>

text \<open>
  One constructor for each function bound with \<open>.on('click', ...)\<close>:
  line 64 (main button), line 70 (Sync Up link), line 76 (Sync Down link),
  line 83 (document).
\<close>

datatype handler = Button_click | Sync_up_click | Sync_down_click | Document_click

text \<open>
  An element keeps its tag, its identifier, whether it is displayed (jQuery's \<open>hide\<close>,
  \<open>show\<close> and \<open>toggle\<close> switch the element's own \<open>display\<close>), the click handlers bound to
  it in binding order, and its child elements. The children of \<open>body\<close> are the document.
\<close>

datatype element =
  Element (el_tag: string) (el_id: "string option") (el_shown: bool)
          (el_click: "handler list") (el_kids: "element list")

text \<open>
  An element is addressed by its path: the index among the children of \<open>body\<close>, then the
  index among the children of that element, and so on. The empty path is \<open>body\<close> itself.
\<close>

fun node_at :: "nat list \<Rightarrow> element list \<Rightarrow> element option" where
  "node_at [] f = None"
| "node_at (n # q) [] = None"
| "node_at [0] (e # es) = Some e"
| "node_at (0 # q) (e # es) = node_at q (el_kids e)"
| "node_at (Suc n # q) (e # es) = node_at (n # q) es"

fun update_at :: "nat list \<Rightarrow> (element \<Rightarrow> element) \<Rightarrow> element list \<Rightarrow> element list" where
  "update_at [] g f = f"
| "update_at (n # q) g [] = []"
| "update_at [0] g (e # es) = g e # es"
| "update_at (0 # q) g (Element t j s hs ks # es) = Element t j s hs (update_at q g ks) # es"
| "update_at (Suc n # q) g (e # es) = e # update_at (n # q) g es"

fun remove_at :: "nat list \<Rightarrow> element list \<Rightarrow> element list" where
  "remove_at [] f = f"
| "remove_at (n # q) [] = []"
| "remove_at [0] (e # es) = es"
| "remove_at (0 # q) (Element t j s hs ks # es) = Element t j s hs (remove_at q ks) # es"
| "remove_at (Suc n # q) (e # es) = e # remove_at (n # q) es"

definition shift_by :: "nat \<Rightarrow> nat list \<Rightarrow> nat list" where
  "shift_by k p = (case p of [] \<Rightarrow> [] | n # q \<Rightarrow> (k + n) # q)"

text \<open>How many elements of a forest carry an identifier.\<close>

fun count_ids :: "string \<Rightarrow> element list \<Rightarrow> nat" where
  "count_ids i [] = 0"
| "count_ids i (Element t j s hs ks # es) =
     (if j = Some i then 1 else 0) + count_ids i ks + count_ids i es"

text \<open>\<open>document.getElementById\<close>: the first element in document order.\<close>

fun first_path :: "string \<Rightarrow> element list \<Rightarrow> nat list option" where
  "first_path i [] = None"
| "first_path i (Element t j s hs ks # es) =
     (if j = Some i then Some [0]
      else case first_path i ks of
             Some q \<Rightarrow> Some (0 # q)
           | None \<Rightarrow> map_option (shift_by 1) (first_path i es))"

text \<open>
  The elements of tag \<open>t\<close> below an element with identifier \<open>a\<close>, in document order;
  \<open>inside\<close> tells whether an ancestor with that identifier has been passed.
\<close>

fun desc_paths :: "string \<Rightarrow> string \<Rightarrow> bool \<Rightarrow> element list \<Rightarrow> nat list list" where
  "desc_paths a t inside [] = []"
| "desc_paths a t inside (Element tg j s hs ks # es) =
     (if inside \<and> tg = t then [[0]] else [])
     @ map ((#) 0) (desc_paths a t (inside \<or> j = Some a) ks)
     @ map (shift_by 1) (desc_paths a t inside es)"

subsection \<open>jQuery: matched sets and what the script does with them\<close>

text \<open>\<open>$('#id')\<close>: at most one element.\<close>

definition jq_id :: "string \<Rightarrow> element list \<Rightarrow> nat list list" where
  "jq_id i f = (case first_path i f of None \<Rightarrow> [] | Some p \<Rightarrow> [p])"

text \<open>\<open>$('#a t')\<close>: every element of tag \<open>t\<close> below an element with identifier \<open>a\<close>.\<close>

definition jq_desc :: "string \<Rightarrow> string \<Rightarrow> element list \<Rightarrow> nat list list" where
  "jq_desc a t f = desc_paths a t False f"

text \<open>
  \<open>.remove()\<close> takes every matched element out of the document, with its subtree and
  the handlers bound inside it. The last match goes first, so that the paths of the
  earlier ones still hold.
\<close>

definition jq_remove :: "nat list list \<Rightarrow> element list \<Rightarrow> element list" where
  "jq_remove ps f = foldr remove_at ps f"

definition add_click :: "handler \<Rightarrow> element \<Rightarrow> element" where
  "add_click h e = Element (el_tag e) (el_id e) (el_shown e) (el_click e @ [h]) (el_kids e)"

definition set_shown :: "bool \<Rightarrow> element \<Rightarrow> element" where
  "set_shown b e = Element (el_tag e) (el_id e) b (el_click e) (el_kids e)"

definition toggle_shown :: "element \<Rightarrow> element" where
  "toggle_shown e = set_shown (\<not> el_shown e) e"

definition jq_each :: "(element \<Rightarrow> element) \<Rightarrow> nat list list \<Rightarrow> element list \<Rightarrow> element list" where
  "jq_each g ps f = fold (\<lambda>p. update_at p g) ps f"

definition jq_on_click :: "handler \<Rightarrow> nat list list \<Rightarrow> element list \<Rightarrow> element list" where
  "jq_on_click h = jq_each (add_click h)"

definition jq_hide :: "nat list list \<Rightarrow> element list \<Rightarrow> element list" where
  "jq_hide = jq_each (set_shown False)"

definition jq_toggle :: "nat list list \<Rightarrow> element list \<Rightarrow> element list" where
  "jq_toggle = jq_each toggle_shown"

subsection \<open>The framework runtime and the page\<close>

record session =
  user :: string

text \<open>
  \<open>has_call\<close> is \<open>typeof frappe.call !== 'undefined'\<close>; \<open>session\<close> is \<open>None\<close> when
  \<open>frappe.session\<close> is undefined, and reading \<open>.user\<close> from it then throws.
\<close>

record frappe_rt =
  has_call :: bool
  session :: "session option"

datatype error = TypeError

datatype log_entry = Warn string | Log string

text \<open>The two callbacks given to \<open>frappe.confirm\<close> (lines 19 and 30).\<close>

datatype confirm_cb = Confirm_push | Confirm_pull

text \<open>The two callbacks given to \<open>frappe.call\<close> (lines 24 and 35).\<close>

datatype call_cb = Callback_up | Callback_down

text \<open>The options object given to \<open>frappe.call\<close>; \<open>method_name\<close> is its key \<open>method\<close>.\<close>

record call_opts =
  method_name :: string
  freeze :: bool
  freeze_message :: string
  callback :: call_cb

record response =
  exc :: jsval
  message :: jsval

text \<open>
  \<open>frappe\<close> is \<open>None\<close> when \<open>typeof frappe === 'undefined'\<close>. \<open>dialogs\<close> are the open
  confirmation prompts, \<open>calls\<close> every remote call issued so far, \<open>notices\<close> every
  argument \<open>frappe.msgprint\<close> was invoked with.
\<close>

record page =
  frappe :: "frappe_rt option"
  body :: "element list"
  document_click :: "handler list"
  console :: "log_entry list"
  dialogs :: "(string \<times> confirm_cb) list"
  calls :: "call_opts list"
  notices :: "jsval list"

definition console_warn :: "string \<Rightarrow> page \<Rightarrow> page" where
  "console_warn s st = st\<lparr>console := console st @ [Warn s]\<rparr>"

definition console_log :: "string \<Rightarrow> page \<Rightarrow> page" where
  "console_log s st = st\<lparr>console := console st @ [Log s]\<rparr>"

definition frappe_msgprint :: "jsval \<Rightarrow> page \<Rightarrow> page" where
  "frappe_msgprint m st = st\<lparr>notices := notices st @ [m]\<rparr>"

definition frappe_call :: "call_opts \<Rightarrow> page \<Rightarrow> page" where
  "frappe_call opts st = st\<lparr>calls := calls st @ [opts]\<rparr>"

definition frappe_confirm :: "string \<Rightarrow> confirm_cb \<Rightarrow> page \<Rightarrow> page" where
  "frappe_confirm prompt cb st = st\<lparr>dialogs := dialogs st @ [(prompt, cb)]\<rparr>"

subsection \<open>The sync logic (lines 18 to 38)\<close>

text \<open>\<open>(r) => { if(!r.exc) frappe.msgprint(r.message); }\<close>, the same text in both.\<close>

fun run_call_cb :: "call_cb \<Rightarrow> response \<Rightarrow> page \<Rightarrow> page" where
  "run_call_cb Callback_up r st = (if \<not> truthy (exc r) then frappe_msgprint (message r) st else st)"
| "run_call_cb Callback_down r st = (if \<not> truthy (exc r) then frappe_msgprint (message r) st else st)"

fun run_confirm_cb :: "confirm_cb \<Rightarrow> page \<Rightarrow> page" where
  "run_confirm_cb Confirm_push st =
     frappe_call \<lparr>method_name = ''sync_app.sync.api.sync_up_to_master'', freeze = True,
                  freeze_message = ''Pushing...'', callback = Callback_up\<rparr> st"
| "run_confirm_cb Confirm_pull st =
     frappe_call \<lparr>method_name = ''sync_app.sync.api.sync_down_from_master'', freeze = True,
                  freeze_message = ''Pulling...'', callback = Callback_down\<rparr> st"

definition run_sync_up :: "page \<Rightarrow> page" where
  "run_sync_up st = frappe_confirm ''Push changes to Master?'' Confirm_push st"

definition run_sync_down :: "page \<Rightarrow> page" where
  "run_sync_down st = frappe_confirm ''Pull changes from Master?'' Confirm_pull st"

text \<open>
  The user answers the open dialog number \<open>i\<close>: the dialog closes, and its callback runs
  if the answer is yes. The response to call number \<open>i\<close> arrives: its callback runs.
\<close>

definition answer_confirm :: "nat \<Rightarrow> bool \<Rightarrow> page \<Rightarrow> page" where
  "answer_confirm i yes st =
     (if i < length (dialogs st)
      then let cb = snd (dialogs st ! i);
               st' = st\<lparr>dialogs := take i (dialogs st) @ drop (Suc i) (dialogs st)\<rparr>
           in if yes then run_confirm_cb cb st' else st'
      else st)"

definition respond :: "nat \<Rightarrow> response \<Rightarrow> page \<Rightarrow> page" where
  "respond i r st =
     (if i < length (calls st) then run_call_cb (callback (calls st ! i)) r st else st)"

subsection \<open>The floating button (lines 41 to 88)\<close>

text \<open>
  The markup of \<open>btn_html\<close> as jQuery parses it: tags, identifiers and the inline
  \<open>display\<close> of each element. Only the popup menu starts hidden.
\<close>

definition btn_html :: element where
  "btn_html =
     Element ''div'' (Some ''sync-floating-btn'') True []
       [Element ''button'' None True [] [Element ''i'' None True [] []],
        Element ''div'' (Some ''sync-popup-menu'') False []
          [Element ''a'' (Some ''float-sync-up'') True [] [Element ''i'' None True [] []],
           Element ''a'' (Some ''float-sync-down'') True [] [Element ''i'' None True [] []]]]"

definition on_body :: "(element list \<Rightarrow> element list) \<Rightarrow> page \<Rightarrow> page" where
  "on_body g st = st\<lparr>body := g (body st)\<rparr>"

definition create_floating_button :: "page \<Rightarrow> page" where
  "create_floating_button st =
     (let st1 = on_body (\<lambda>f. jq_remove (jq_id ''sync-floating-btn'' f) f) st;
          st2 = on_body (\<lambda>f. f @ [btn_html]) st1;
          st3 = on_body (\<lambda>f. jq_on_click Button_click (jq_desc ''sync-floating-btn'' ''button'' f) f) st2;
          st4 = on_body (\<lambda>f. jq_on_click Sync_up_click (jq_id ''float-sync-up'' f) f) st3;
          st5 = on_body (\<lambda>f. jq_on_click Sync_down_click (jq_id ''float-sync-down'' f) f) st4;
          st6 = st5\<lparr>document_click := document_click st5 @ [Document_click]\<rparr>
      in console_log ''Sync App: Floating button created'' st6)"

subsection \<open>The ready handler (lines 5 to 92)\<close>

definition ready :: "page \<Rightarrow> error + page" where
  "ready st =
     (case frappe st of
        None \<Rightarrow> Inr (console_warn ''Sync App: Frappe not loaded yet.'' st)
      | Some fr \<Rightarrow>
          if \<not> has_call fr then Inr (console_warn ''Sync App: Frappe not loaded yet.'' st)
          else (case session fr of
                  None \<Rightarrow> Inl TypeError
                | Some s \<Rightarrow>
                    if user s = ''Guest'' then Inr st
                    else Inr (create_floating_button
                                (console_log ''Sync App: Initializing...'' st))))"

subsection \<open>Click events\<close>

text \<open>
  The event object with the two flags the handlers set, and the record of one dispatch:
  the event, the page, and which handler ran where.
\<close>

record event =
  propagation_stopped :: bool
  default_prevented :: bool

datatype site = At_element "nat list" | At_document

record dispatch =
  ev :: event
  pg :: page
  ran :: "(site \<times> handler) list"

definition hide_menu :: "page \<Rightarrow> page" where
  "hide_menu st = on_body (\<lambda>f. jq_hide (jq_id ''sync-popup-menu'' f) f) st"

definition toggle_menu :: "page \<Rightarrow> page" where
  "toggle_menu st = on_body (\<lambda>f. jq_toggle (jq_id ''sync-popup-menu'' f) f) st"

fun handler_body :: "handler \<Rightarrow> event \<times> page \<Rightarrow> event \<times> page" where
  "handler_body Button_click (e, st) = (e\<lparr>propagation_stopped := True\<rparr>, toggle_menu st)"
| "handler_body Sync_up_click (e, st) = (e\<lparr>default_prevented := True\<rparr>, run_sync_up (hide_menu st))"
| "handler_body Sync_down_click (e, st) = (e\<lparr>default_prevented := True\<rparr>, run_sync_down (hide_menu st))"
| "handler_body Document_click (e, st) = (e, hide_menu st)"

definition run_handler :: "site \<Rightarrow> dispatch \<Rightarrow> handler \<Rightarrow> dispatch" where
  "run_handler w d h =
     (let (e, st) = handler_body h (ev d, pg d)
      in \<lparr>ev = e, pg = st, ran = ran d @ [(w, h)]\<rparr>)"

text \<open>Every handler bound to one element runs, in binding order.\<close>

definition run_all :: "site \<Rightarrow> handler list \<Rightarrow> dispatch \<Rightarrow> dispatch" where
  "run_all w hs d = foldl (run_handler w) d hs"

definition handlers_at :: "nat list \<Rightarrow> element list \<Rightarrow> handler list" where
  "handlers_at p f = (case node_at p f of None \<Rightarrow> [] | Some e \<Rightarrow> el_click e)"

text \<open>
  The event visits the target, then each ancestor up to the child of \<open>body\<close>, then the
  document, and stops after the handlers of an element where propagation was stopped.
\<close>

definition propagation_path :: "nat list \<Rightarrow> nat list list" where
  "propagation_path p = map (\<lambda>k. take k p) (rev [1..<Suc (length p)])"

fun bubble :: "nat list list \<Rightarrow> dispatch \<Rightarrow> dispatch" where
  "bubble [] d = run_all At_document (document_click (pg d)) d"
| "bubble (p # ps) d =
     (let d' = run_all (At_element p) (handlers_at p (body (pg d))) d
      in if propagation_stopped (ev d') then d' else bubble ps d')"

definition click :: "nat list \<Rightarrow> page \<Rightarrow> dispatch" where
  "click tgt st =
     bubble (propagation_path tgt)
       \<lparr>ev = \<lparr>propagation_stopped = False, default_prevented = False\<rparr>, pg = st, ran = []\<rparr>"

subsection \<open>Repeated initialization and click sequences\<close>

text \<open>The ready handler run \<open>n\<close> times in succession; an exception ends the run.\<close>

fun ready_times :: "nat \<Rightarrow> page \<Rightarrow> error + page" where
  "ready_times 0 st = Inr st"
| "ready_times (Suc n) st =
     (case ready st of Inl e \<Rightarrow> Inl e | Inr st' \<Rightarrow> ready_times n st')"

text \<open>One click after the other, each on the page the previous one left.\<close>

fun click_seq :: "nat list list \<Rightarrow> page \<Rightarrow> dispatch list" where
  "click_seq [] st = []"
| "click_seq (t # ts) st = (let d = click t st in d # click_seq ts (pg d))"

subsection \<open>Describing pages\<close>

text \<open>
  The control as \<open>create_floating_button\<close> leaves it, with its three handlers bound;
  \<open>s\<close> tells whether the popup menu is displayed.
\<close>

definition widget :: "bool \<Rightarrow> element" where
  "widget s =
     Element ''div'' (Some ''sync-floating-btn'') True []
       [Element ''button'' None True [Button_click] [Element ''i'' None True [] []],
        Element ''div'' (Some ''sync-popup-menu'') s []
          [Element ''a'' (Some ''float-sync-up'') True [Sync_up_click]
             [Element ''i'' None True [] []],
           Element ''a'' (Some ''float-sync-down'') True [Sync_down_click]
             [Element ''i'' None True [] []]]]"

text \<open>Whether the element that \<open>$('#sync-popup-menu')\<close> matches is displayed.\<close>

definition popup_shown :: "page \<Rightarrow> bool" where
  "popup_shown st =
     (case first_path ''sync-popup-menu'' (body st) of
        None \<Rightarrow> False
      | Some p \<Rightarrow> (case node_at p (body st) of None \<Rightarrow> False | Some e \<Rightarrow> el_shown e))"

text \<open>
  Line 43 on its own: the document without the element that \<open>$('#sync-floating-btn')\<close>
  matches.
\<close>

definition without_control :: "element list \<Rightarrow> element list" where
  "without_control f = jq_remove (jq_id ''sync-floating-btn'' f) f"

text \<open>Lines 70 and 76 on their own: the two handlers bound through the identifiers of the links.\<close>

definition bind_links :: "element list \<Rightarrow> element list" where
  "bind_links f =
     (let f2 = jq_on_click Sync_up_click (jq_id ''float-sync-up'' f) f
      in jq_on_click Sync_down_click (jq_id ''float-sync-down'' f2) f2)"

text \<open>A forest with every bound handler taken off: the markup alone.\<close>

fun unbound :: "element list \<Rightarrow> element list" where
  "unbound [] = []"
| "unbound (Element t j s hs ks # es) = Element t j s [] (unbound ks) # unbound es"

text \<open>
  A freshly built control: popup hidden, the handler of the button bound, the handler
  of the Sync Up link bound if \<open>u\<close>, the handler of the Sync Down link bound if \<open>d\<close>.
\<close>

definition control :: "bool \<Rightarrow> bool \<Rightarrow> element" where
  "control u d =
     Element ''div'' (Some ''sync-floating-btn'') True []
       [Element ''button'' None True [Button_click] [Element ''i'' None True [] []],
        Element ''div'' (Some ''sync-popup-menu'') False []
          [Element ''a'' (Some ''float-sync-up'') True (if u then [Sync_up_click] else [])
             [Element ''i'' None True [] []],
           Element ''a'' (Some ''float-sync-down'') True (if d then [Sync_down_click] else [])
             [Element ''i'' None True [] []]]]"

text \<open>A forest that uses none of the four identifiers of the control.\<close>

definition widget_free :: "element list \<Rightarrow> bool" where
  "widget_free f \<longleftrightarrow>
     count_ids ''sync-floating-btn'' f = 0 \<and> count_ids ''sync-popup-menu'' f = 0 \<and>
     count_ids ''float-sync-up'' f = 0 \<and> count_ids ''float-sync-down'' f = 0"

text \<open>A forest in which no element has a handler of this script bound to it.\<close>

fun no_handlers :: "element list \<Rightarrow> bool" where
  "no_handlers [] = True"
| "no_handlers (Element t j s hs ks # es) = (hs = [] \<and> no_handlers ks \<and> no_handlers es)"

text \<open>
  A click target outside the control that is child number \<open>k\<close> of \<open>body\<close>: \<open>body\<close>
  itself, or anything below another child.
\<close>

definition outside_control :: "nat \<Rightarrow> nat list \<Rightarrow> bool" where
  "outside_control k tgt = (case tgt of [] \<Rightarrow> True | i # q \<Rightarrow> i \<noteq> k)"

text \<open>An update of one element that leaves its identifier and its children alone.\<close>

definition keeps_ids :: "(element \<Rightarrow> element) \<Rightarrow> bool" where
  "keeps_ids g = (\<forall>e. el_id (g e) = el_id e \<and> el_kids (g e) = el_kids e)"

subsection \<open>Example pages\<close>

definition navbar :: element where
  "navbar = Element ''div'' (Some ''navbar'') True [] [Element ''button'' None True [] []]"

definition example_page :: page where
  "example_page =
     \<lparr>frappe = Some \<lparr>has_call = True, session = Some \<lparr>user = ''Administrator''\<rparr>\<rparr>,
      body = [navbar], document_click = [], console = [], dialogs = [], calls = [],
      notices = []\<rparr>"

definition guest_page :: page where
  "guest_page =
     example_page\<lparr>frappe := Some \<lparr>has_call = True, session = Some \<lparr>user = ''Guest''\<rparr>\<rparr>\<rparr>"

definition bare_page :: page where
  "bare_page = example_page\<lparr>frappe := None\<rparr>"

definition mounted_page :: page where
  "mounted_page =
     example_page
       \<lparr>body := [navbar, widget False],
        document_click := [Document_click],
        console := [Log ''Sync App: Initializing...'', Log ''Sync App: Floating button created'']\<rparr>"

definition open_page :: page where
  "open_page = mounted_page\<lparr>body := [navbar, widget True]\<rparr>"

definition push_call :: call_opts where
  "push_call = \<lparr>method_name = ''sync_app.sync.api.sync_up_to_master'', freeze = True,
                freeze_message = ''Pushing...'', callback = Callback_up\<rparr>"

definition calling_page :: page where
  "calling_page = mounted_page\<lparr>calls := [push_call]\<rparr>"

section \<open>The action flow\<close>

lemma run_sync_up_opens_prompt:
  "run_sync_up st = st\<lparr>dialogs := dialogs st @ [(''Push changes to Master?'', Confirm_push)]\<rparr>"
  by (simp add: run_sync_up_def frappe_confirm_def)

lemma run_sync_down_opens_prompt:
  "run_sync_down st = st\<lparr>dialogs := dialogs st @ [(''Pull changes from Master?'', Confirm_pull)]\<rparr>"
  by (simp add: run_sync_down_def frappe_confirm_def)

lemma run_call_cb_either:
  "run_call_cb cb r st =
     (if truthy (exc r) then st else st\<lparr>notices := notices st @ [message r]\<rparr>)"
  by (cases cb) (simp_all add: frappe_msgprint_def)

text \<open>
  C1. \<open>run_sync_up\<close> opens its prompt behind the dialogs already open, at index
  \<open>length (dialogs st)\<close>. When the user accepts that prompt, the page changes in one way
  only: one entry is added to the remote calls, naming
  \<open>sync_app.sync.api.sync_up_to_master\<close>, with \<open>freeze\<close> set and the caption
  \<open>Pushing...\<close>. \<open>run_sync_down\<close> does the same with
  \<open>sync_app.sync.api.sync_down_from_master\<close> and \<open>Pulling...\<close>.
\<close>

theorem confirm_issues_one_call:
  "answer_confirm (length (dialogs st)) True (run_sync_up st) =
     st\<lparr>calls := calls st @
          [\<lparr>method_name = ''sync_app.sync.api.sync_up_to_master'', freeze = True,
            freeze_message = ''Pushing...'', callback = Callback_up\<rparr>]\<rparr>
   \<and> answer_confirm (length (dialogs st)) True (run_sync_down st) =
     st\<lparr>calls := calls st @
          [\<lparr>method_name = ''sync_app.sync.api.sync_down_from_master'', freeze = True,
            freeze_message = ''Pulling...'', callback = Callback_down\<rparr>]\<rparr>"
  by (simp add: answer_confirm_def run_sync_up_def run_sync_down_def frappe_confirm_def
      frappe_call_def)

theorem confirm_issues_one_call_witness:
  "calls (answer_confirm 0 True (run_sync_up mounted_page)) =
     [\<lparr>method_name = ''sync_app.sync.api.sync_up_to_master'', freeze = True,
       freeze_message = ''Pushing...'', callback = Callback_up\<rparr>]
   \<and> calls (answer_confirm 0 True (run_sync_down mounted_page)) =
     [\<lparr>method_name = ''sync_app.sync.api.sync_down_from_master'', freeze = True,
       freeze_message = ''Pulling...'', callback = Callback_down\<rparr>]"
proof -
  have d: "length (dialogs mounted_page) = 0" and c: "calls mounted_page = []"
    by (simp_all add: mounted_page_def example_page_def)
  from confirm_issues_one_call[of mounted_page] show ?thesis
    unfolding d by (simp add: c)
qed

text \<open>
  C2. When the response to a call that this script issued arrives, the callback of the
  call runs. If \<open>r.exc\<close> is truthy (the response carries an error indicator) the page is
  left as it was: no notice. Otherwise \<open>frappe.msgprint\<close> is invoked once, with
  \<open>r.message\<close>, and nothing else changes.
\<close>

theorem response_shows_message_unless_error:
  assumes "i < length (calls st)"
  shows "respond i r st =
           (if truthy (exc r) then st else st\<lparr>notices := notices st @ [message r]\<rparr>)"
  using assms by (simp add: respond_def run_call_cb_either)

theorem response_shows_message_unless_error_witness:
  "(0::nat) < length (calls calling_page)
   \<and> respond 0 \<lparr>exc = JUndefined, message = JStr ''OK''\<rparr> calling_page =
       calling_page\<lparr>notices := [JStr ''OK'']\<rparr>
   \<and> respond 0 \<lparr>exc = JStr ''Traceback'', message = JStr ''OK''\<rparr> calling_page =
       calling_page"
proof -
  have h: "(0::nat) < length (calls calling_page)" by (simp add: calling_page_def)
  have n: "notices calling_page = []"
    by (simp add: calling_page_def mounted_page_def example_page_def)
  from response_shows_message_unless_error[OF h, of "\<lparr>exc = JUndefined, message = JStr ''OK''\<rparr>"]
    response_shows_message_unless_error[OF h, of "\<lparr>exc = JStr ''Traceback'', message = JStr ''OK''\<rparr>"]
    h n
  show ?thesis by simp
qed

text \<open>
  C3. When the user declines the prompt that \<open>run_sync_up\<close> or \<open>run_sync_down\<close> opened,
  the page is again exactly the page before the action flow started: the prompt is gone,
  no remote call was added, and the document, the notices and the log are untouched.
\<close>

theorem decline_changes_nothing:
  "answer_confirm (length (dialogs st)) False (run_sync_up st) = st
   \<and> answer_confirm (length (dialogs st)) False (run_sync_down st) = st"
  by (simp add: answer_confirm_def run_sync_up_def run_sync_down_def frappe_confirm_def)

theorem decline_changes_nothing_witness:
  "answer_confirm 0 False (run_sync_up mounted_page) = mounted_page
   \<and> answer_confirm 0 False (run_sync_down mounted_page) = mounted_page
   \<and> calls mounted_page = []"
proof -
  have d: "length (dialogs mounted_page) = 0" and c: "calls mounted_page = []"
    by (simp_all add: mounted_page_def example_page_def)
  from decline_changes_nothing[of mounted_page] show ?thesis
    unfolding d by (simp add: c)
qed

text \<open>
  C10. The callback does not look at \<open>r.message\<close> before it passes it on: whenever
  \<open>r.exc\<close> is falsy, \<open>frappe.msgprint\<close> is invoked with the message field whatever it
  holds, and with \<open>undefined\<close> when the response has no message.
\<close>

theorem notice_without_presence_check:
  assumes "i < length (calls st)" and "\<not> truthy x"
  shows "notices (respond i \<lparr>exc = x, message = m\<rparr> st) = notices st @ [m]
         \<and> notices (respond i \<lparr>exc = x, message = JUndefined\<rparr> st) = notices st @ [JUndefined]"
  using assms by (simp add: respond_def run_call_cb_either)

theorem notice_without_presence_check_witness:
  "(0::nat) < length (calls calling_page) \<and> \<not> truthy JNull
   \<and> notices (respond 0 \<lparr>exc = JNull, message = JUndefined\<rparr> calling_page) = [JUndefined]"
proof -
  have h: "(0::nat) < length (calls calling_page)" by (simp add: calling_page_def)
  have t: "\<not> truthy JNull" by simp
  have n: "notices calling_page = []"
    by (simp add: calling_page_def mounted_page_def example_page_def)
  from notice_without_presence_check[OF h t, of JUndefined] h n show ?thesis by simp
qed

section \<open>The guards of the ready handler\<close>

text \<open>
  C5. With the runtime present and \<open>frappe.session.user\<close> equal to \<open>'Guest'\<close>, the ready
  handler returns normally and the page is the page it started from: nothing is added
  to the document, nothing is bound, nothing is logged.
\<close>

theorem guest_session_creates_nothing:
  assumes "frappe st = Some fr" and "has_call fr" and "session fr = Some s"
    and "user s = ''Guest''"
  shows "ready st = Inr st"
  using assms by (simp add: ready_def)

theorem guest_session_creates_nothing_witness:
  "frappe guest_page = Some \<lparr>has_call = True, session = Some \<lparr>user = ''Guest''\<rparr>\<rparr>
   \<and> ready guest_page = Inr guest_page \<and> body guest_page = [navbar]"
proof -
  have h: "frappe guest_page = Some \<lparr>has_call = True, session = Some \<lparr>user = ''Guest''\<rparr>\<rparr>"
    by (simp add: guest_page_def)
  have b: "body guest_page = [navbar]" by (simp add: guest_page_def example_page_def)
  from guest_session_creates_nothing[OF h, of "\<lparr>user = ''Guest''\<rparr>"] h b
  show ?thesis by simp
qed

text \<open>
  C6. When \<open>frappe\<close> is undefined, or \<open>frappe.call\<close> is, the ready handler returns
  normally and the only change to the page is one warning in the console: the document
  and the handlers bound to it are as before.
\<close>

theorem missing_runtime_warns_only:
  assumes "frappe st = None \<or> (\<exists>fr. frappe st = Some fr \<and> \<not> has_call fr)"
  shows "ready st =
           Inr (st\<lparr>console := console st @ [Warn ''Sync App: Frappe not loaded yet.'']\<rparr>)"
  using assms by (auto simp: ready_def console_warn_def)

theorem missing_runtime_warns_only_witness:
  "frappe bare_page = None
   \<and> ready bare_page =
       Inr (bare_page\<lparr>console := [Warn ''Sync App: Frappe not loaded yet.'']\<rparr>)
   \<and> body bare_page = [navbar]"
proof -
  have h: "frappe bare_page = None" by (simp add: bare_page_def)
  have c: "console bare_page = []" and b: "body bare_page = [navbar]"
    by (simp_all add: bare_page_def example_page_def)
  from h have "frappe bare_page = None \<or> (\<exists>fr. frappe bare_page = Some fr \<and> \<not> has_call fr)"
    by simp
  from missing_runtime_warns_only[OF this] h c b show ?thesis by simp
qed

section \<open>Repeated initialization\<close>

lemma ready_frappe: "ready st = Inr st' \<Longrightarrow> frappe st' = frappe st"
  by (auto simp: ready_def console_warn_def console_log_def create_floating_button_def
      on_body_def Let_def split: option.splits if_splits)

lemma ready_document_click:
  assumes "frappe st = Some fr" and "has_call fr" and "session fr = Some s"
    and "user s \<noteq> ''Guest''"
  shows "\<exists>st'. ready st = Inr st' \<and> document_click st' = document_click st @ [Document_click]"
  using assms
  by (simp add: ready_def console_log_def create_floating_button_def on_body_def Let_def)

text \<open>
  C9. Each run of the ready handler that reaches \<open>create_floating_button\<close> adds one
  handler to the document and takes none away: removing the old control does not touch
  the handlers bound to the document. After \<open>n\<close> runs the document holds the handlers it
  had before and \<open>n\<close> more dismiss handlers.
\<close>

theorem document_handlers_accumulate:
  assumes "frappe st = Some fr" and "has_call fr" and "session fr = Some s"
    and "user s \<noteq> ''Guest''"
  shows "\<exists>st'. ready_times n st = Inr st'
           \<and> document_click st' = document_click st @ replicate n Document_click"
  using assms
proof (induction n arbitrary: st)
  case 0
  then show ?case by simp
next
  case (Suc n)
  from ready_document_click[OF Suc.prems] obtain st1 where
    r: "ready st = Inr st1" and dc: "document_click st1 = document_click st @ [Document_click]"
    by blast
  from ready_frappe[OF r] Suc.prems have "frappe st1 = Some fr" by simp
  from Suc.IH[OF this Suc.prems(2-4)] obtain st' where
    "ready_times n st1 = Inr st'"
    "document_click st' = document_click st1 @ replicate n Document_click" by blast
  with r dc show ?case by (simp add: replicate_app_Cons_same)
qed

theorem document_handlers_accumulate_witness:
  "frappe example_page = Some \<lparr>has_call = True, session = Some \<lparr>user = ''Administrator''\<rparr>\<rparr>
   \<and> (\<exists>st'. ready_times 3 example_page = Inr st'
          \<and> document_click st' = [Document_click, Document_click, Document_click])"
proof -
  have h: "frappe example_page =
             Some \<lparr>has_call = True, session = Some \<lparr>user = ''Administrator''\<rparr>\<rparr>"
    and d: "document_click example_page = []"
    by (simp_all add: example_page_def)
  have r: "replicate 3 Document_click = [Document_click, Document_click, Document_click]"
    by (simp add: numeral_3_eq_3)
  from document_handlers_accumulate[OF h, of "\<lparr>user = ''Administrator''\<rparr>" 3] h
  show ?thesis unfolding d r by simp
qed

section \<open>Paths and forests\<close>

lemma shift_by_Cons [simp]: "shift_by k (n # q) = (k + n) # q"
  by (simp add: shift_by_def)

lemma shift_by_Nil [simp]: "shift_by k [] = []"
  by (simp add: shift_by_def)

lemma shift_by_eq_Nil [simp]: "shift_by k p = [] \<longleftrightarrow> p = []"
  by (cases p) simp_all

lemma shift_by_shift_by: "shift_by m (shift_by n p) = shift_by (m + n) p"
  by (cases p) simp_all

lemma count_ids_Cons:
  "count_ids i (e # es) =
     (if el_id e = Some i then 1 else 0) + count_ids i (el_kids e) + count_ids i es"
  by (cases e) simp

lemma count_ids_append: "count_ids i (f @ r) = count_ids i f + count_ids i r"
  by (induction i f rule: count_ids.induct) auto

lemma first_path_None: "first_path i f = None \<Longrightarrow> count_ids i f = 0"
  by (induction i f rule: first_path.induct) (auto split: if_splits option.splits)

lemma first_path_Some: "first_path i f = Some p \<Longrightarrow> 0 < count_ids i f"
  by (induction i f arbitrary: p rule: first_path.induct) (auto split: if_splits option.splits)

lemma first_path_nonempty: "first_path i f = Some p \<Longrightarrow> p \<noteq> []"
  by (induction i f arbitrary: p rule: first_path.induct)
    (auto split: if_splits option.splits)

lemma count_ids_0_first_path: "count_ids i f = 0 \<Longrightarrow> first_path i f = None"
  using first_path_Some by (cases "first_path i f") fastforce+

lemma first_path_append:
  "count_ids i f = 0 \<Longrightarrow>
   first_path i (f @ r) = map_option (shift_by (length f)) (first_path i r)"
proof (induction i f rule: first_path.induct)
  case (1 i)
  show ?case by (cases "first_path i r") (auto simp: shift_by_def split: list.splits)
next
  case (2 i t j s hs ks es)
  then have "first_path i ks = None" by (simp add: count_ids_0_first_path)
  with 2 show ?case
    by (cases "first_path i r") (auto simp: shift_by_def split: list.splits)
qed

lemma update_at_append:
  "update_at ((length f + n) # q) g (f @ r) = f @ update_at (n # q) g r"
  by (induction f) simp_all

lemma update_at_last: "update_at (length f # q) g (f @ r) = f @ update_at (0 # q) g r"
  using update_at_append[of f 0] by simp

lemma remove_at_append:
  "remove_at ((length f + n) # q) (f @ r) = f @ remove_at (n # q) r"
  by (induction f) simp_all

lemma remove_at_last: "remove_at (length f # q) (f @ r) = f @ remove_at (0 # q) r"
  using remove_at_append[of f 0] by simp

lemma node_at_append_right:
  "node_at ((length f + n) # q) (f @ r) = node_at (n # q) r"
  by (induction f) simp_all

lemma node_at_last: "node_at (length f # q) (f @ r) = node_at (0 # q) r"
  using node_at_append_right[of f 0] by simp

lemma node_at_append_left:
  "n < length f \<Longrightarrow> node_at (n # q) (f @ r) = node_at (n # q) f"
proof (induction f arbitrary: n)
  case Nil
  then show ?case by simp
next
  case (Cons e es)
  then show ?case by (cases n; cases q) simp_all
qed

lemma desc_paths_outside:
  "count_ids a f = 0 \<Longrightarrow> \<not> b \<Longrightarrow> desc_paths a t b f = []"
  by (induction a t b f rule: desc_paths.induct) (auto split: if_splits)

lemma desc_paths_append:
  "desc_paths a t b (f @ r) =
     desc_paths a t b f @ map (shift_by (length f)) (desc_paths a t b r)"
proof (induction a t b f rule: desc_paths.induct)
  case (1 a t inside)
  have "map (shift_by 0) ps = ps" for ps :: "nat list list"
    by (induction ps) (simp_all add: shift_by_def split: list.splits)
  then show ?case by simp
next
  case (2 a t inside tg j s hs ks es)
  then show ?case by (simp add: shift_by_shift_by comp_def)
qed

section \<open>Removing the old control\<close>

lemma remove_first_unique:
  "first_path i f = Some p \<Longrightarrow> count_ids i f \<le> 1 \<Longrightarrow> count_ids i (remove_at p f) = 0"
proof (induction i f arbitrary: p rule: first_path.induct)
  case (1 i)
  then show ?case by simp
next
  case (2 i t j s hs ks es)
  show ?case
  proof (cases "j = Some i")
    case True
    with 2 show ?thesis by auto
  next
    case nj: False
    show ?thesis
    proof (cases "first_path i ks")
      case None
      with nj "2.prems" obtain q where q: "first_path i es = Some q" and p: "p = shift_by 1 q"
        by auto
      from first_path_nonempty[OF q] obtain n q' where q': "q = n # q'"
        by (cases q) auto
      from None have k0: "count_ids i ks = 0" by (rule first_path_None)
      with "2.prems" nj have "count_ids i es \<le> 1" by simp
      with "2.IH"(2)[OF nj None q] have "count_ids i (remove_at q es) = 0" .
      with p q' nj k0 show ?thesis by simp
    next
      case (Some q)
      with nj "2.prems" have p: "p = 0 # q" by simp
      from first_path_nonempty[OF Some] obtain n q' where q': "q = n # q'"
        by (cases q) auto
      from first_path_Some[OF Some] "2.prems" nj
      have c: "count_ids i ks \<le> 1" "count_ids i es = 0" by auto
      from "2.IH"(1)[OF nj Some c(1)] have "count_ids i (remove_at q ks) = 0" .
      with p q' nj c show ?thesis by simp
    qed
  qed
qed

lemma jq_remove_id_unique:
  "count_ids i f \<le> 1 \<Longrightarrow> count_ids i (jq_remove (jq_id i f) f) = 0"
  by (cases "first_path i f")
    (simp_all add: jq_remove_def jq_id_def first_path_None remove_first_unique)

lemma count_ids_update_at:
  "keeps_ids g \<Longrightarrow> count_ids i (update_at p g f) = count_ids i f"
proof (induction p g f rule: update_at.induct)
  case (3 g e es)
  then show ?case by (simp add: count_ids_Cons keeps_ids_def)
next
  case (5 n q g e es)
  then show ?case by (simp add: count_ids_Cons)
qed auto

lemma count_ids_jq_each:
  "keeps_ids g \<Longrightarrow> count_ids i (jq_each g ps f) = count_ids i f"
  unfolding jq_each_def by (induction ps arbitrary: f) (simp_all add: count_ids_update_at)

lemma keeps_ids_add_click: "keeps_ids (add_click h)"
  by (simp add: keeps_ids_def add_click_def)

lemma create_frappe: "frappe (create_floating_button st) = frappe st"
  by (simp add: create_floating_button_def Let_def on_body_def console_log_def)

section \<open>Mounting the control\<close>

lemma create_on_clean:
  assumes "widget_free f"
  shows "jq_on_click Sync_down_click (jq_id ''float-sync-down''
           (jq_on_click Sync_up_click (jq_id ''float-sync-up''
             (jq_on_click Button_click (jq_desc ''sync-floating-btn'' ''button'' (f @ [btn_html]))
               (f @ [btn_html])))
             (jq_on_click Button_click (jq_desc ''sync-floating-btn'' ''button'' (f @ [btn_html]))
               (f @ [btn_html]))))
           (jq_on_click Sync_up_click (jq_id ''float-sync-up''
             (jq_on_click Button_click (jq_desc ''sync-floating-btn'' ''button'' (f @ [btn_html]))
               (f @ [btn_html])))
             (jq_on_click Button_click (jq_desc ''sync-floating-btn'' ''button'' (f @ [btn_html]))
               (f @ [btn_html])))
         = f @ [widget False]"
proof -
  let ?b1 = "Element ''div'' (Some ''sync-floating-btn'') True []
       [Element ''button'' None True [Button_click] [Element ''i'' None True [] []],
        Element ''div'' (Some ''sync-popup-menu'') False []
          [Element ''a'' (Some ''float-sync-up'') True [] [Element ''i'' None True [] []],
           Element ''a'' (Some ''float-sync-down'') True [] [Element ''i'' None True [] []]]]"
  let ?b2 = "Element ''div'' (Some ''sync-floating-btn'') True []
       [Element ''button'' None True [Button_click] [Element ''i'' None True [] []],
        Element ''div'' (Some ''sync-popup-menu'') False []
          [Element ''a'' (Some ''float-sync-up'') True [Sync_up_click]
             [Element ''i'' None True [] []],
           Element ''a'' (Some ''float-sync-down'') True [] [Element ''i'' None True [] []]]]"
  from assms have c: "count_ids ''sync-floating-btn'' f = 0" "count_ids ''float-sync-up'' f = 0"
    "count_ids ''float-sync-down'' f = 0" by (simp_all add: widget_free_def)
  have d: "jq_desc ''sync-floating-btn'' ''button'' (f @ [btn_html]) = [[length f, 0]]"
    by (simp add: jq_desc_def desc_paths_append desc_paths_outside c btn_html_def)
  have s1: "jq_on_click Button_click (jq_desc ''sync-floating-btn'' ''button'' (f @ [btn_html]))
              (f @ [btn_html]) = f @ [?b1]"
    unfolding d jq_on_click_def jq_each_def
    by (simp add: update_at_last btn_html_def add_click_def)
  have i2: "jq_id ''float-sync-up'' (f @ [?b1]) = [[length f, 1, 0]]"
    by (simp add: jq_id_def first_path_append c)
  have s2: "jq_on_click Sync_up_click (jq_id ''float-sync-up'' (f @ [?b1])) (f @ [?b1]) = f @ [?b2]"
    unfolding i2 jq_on_click_def jq_each_def
    by (simp add: update_at_last add_click_def)
  have i3: "jq_id ''float-sync-down'' (f @ [?b2]) = [[length f, 1, 1]]"
    by (simp add: jq_id_def first_path_append c)
  have s3: "jq_on_click Sync_down_click (jq_id ''float-sync-down'' (f @ [?b2])) (f @ [?b2])
              = f @ [widget False]"
    unfolding i3 jq_on_click_def jq_each_def
    by (simp add: update_at_last add_click_def widget_def)
  show ?thesis unfolding s1 s2 s3 ..
qed

text \<open>On a document that uses none of the control's identifiers, the control is appended.\<close>

lemma create_mounts_widget:
  assumes "widget_free (body st)"
  shows "create_floating_button st =
           st\<lparr>body := body st @ [widget False],
              document_click := document_click st @ [Document_click],
              console := console st @ [Log ''Sync App: Floating button created'']\<rparr>"
proof -
  from assms have "jq_id ''sync-floating-btn'' (body st) = []"
    by (simp add: jq_id_def widget_free_def count_ids_0_first_path)
  then show ?thesis
    by (simp add: create_floating_button_def Let_def on_body_def console_log_def jq_remove_def
        create_on_clean[OF assms])
qed

text \<open>
  On a document that holds the control among the children of \<open>body\<close>, the control is
  taken out and a fresh one is appended.
\<close>

lemma widget_free_append: "widget_free (f @ g) \<longleftrightarrow> widget_free f \<and> widget_free g"
  by (auto simp: widget_free_def count_ids_append)

lemma create_remounts_widget:
  assumes "body st = f @ widget s # g" and "widget_free f" and "widget_free g"
  shows "create_floating_button st =
           st\<lparr>body := f @ g @ [widget False],
              document_click := document_click st @ [Document_click],
              console := console st @ [Log ''Sync App: Floating button created'']\<rparr>"
proof -
  from assms(2) have "first_path ''sync-floating-btn'' (f @ widget s # g) = Some [length f]"
    by (simp add: first_path_append widget_free_def widget_def)
  then have "jq_remove (jq_id ''sync-floating-btn'' (body st)) (body st) = f @ g"
    unfolding assms(1) jq_id_def jq_remove_def
    by (simp add: remove_at_last)
  moreover from assms(2,3) have "widget_free (f @ g)" by (simp add: widget_free_append)
  ultimately show ?thesis
    using create_on_clean[of "f @ g"]
    by (simp add: create_floating_button_def Let_def on_body_def console_log_def)
qed

text \<open>
  On a document that uses none of the control's identifiers, a second run of the ready
  handler leaves the document that the first run left.
\<close>

lemma ready_twice_same_body:
  assumes "frappe st = Some fr" and "has_call fr" and "session fr = Some u"
    and "user u \<noteq> ''Guest''" and "widget_free (body st)"
  shows "\<exists>st1 st2. ready st = Inr st1 \<and> body st1 = body st @ [widget False]
           \<and> ready st1 = Inr st2 \<and> body st2 = body st1"
proof -
  let ?st0 = "console_log ''Sync App: Initializing...'' st"
  let ?st1 = "create_floating_button ?st0"
  let ?st1' = "console_log ''Sync App: Initializing...'' ?st1"
  let ?st2 = "create_floating_button ?st1'"
  have r1: "ready st = Inr ?st1" using assms(1-4) by (simp add: ready_def)
  have "widget_free (body ?st0)" using assms(5) by (simp add: console_log_def)
  from create_mounts_widget[OF this]
  have b1: "body ?st1 = body st @ [widget False]" by (simp add: console_log_def)
  have "frappe ?st1 = Some fr" using assms(1) by (simp add: create_frappe console_log_def)
  then have r2: "ready ?st1 = Inr ?st2" using assms(2-4) by (simp add: ready_def)
  have "body ?st1' = body st @ widget False # []" using b1 by (simp add: console_log_def)
  moreover have "widget_free []" by (simp add: widget_free_def)
  ultimately have "body ?st2 = body st @ [] @ [widget False]"
    using create_remounts_widget[of ?st1' "body st" False "[]"] assms(5) by simp
  with b1 have b2: "body ?st2 = body ?st1" by simp
  from r1 b1 r2 b2 show ?thesis by blast
qed

lemma widget_free_navbar: "widget_free [navbar]"
  by (simp add: widget_free_def navbar_def)

lemma ready_example_page: "ready example_page = Inr mounted_page"
proof -
  have "widget_free (body (console_log ''Sync App: Initializing...'' example_page))"
    by (simp add: console_log_def example_page_def widget_free_navbar)
  from create_mounts_widget[OF this] show ?thesis
    by (simp add: ready_def example_page_def mounted_page_def console_log_def)
qed

lemma ready_mounted_page_body:
  "\<exists>st'. ready mounted_page = Inr st' \<and> body st' = body mounted_page"
proof -
  have "body (console_log ''Sync App: Initializing...'' mounted_page) = [navbar] @ widget False # []"
    and "widget_free []"
    by (simp_all add: console_log_def mounted_page_def widget_free_def)
  from create_remounts_widget[OF this(1) widget_free_navbar this(2)] show ?thesis
    by (simp add: ready_def example_page_def mounted_page_def console_log_def)
qed

section \<open>Exactly one control\<close>

lemma unbound_Cons:
  "unbound (e # es) = Element (el_tag e) (el_id e) (el_shown e) [] (unbound (el_kids e)) # unbound es"
  by (cases e) simp

lemma unbound_append: "unbound (f @ r) = unbound f @ unbound r"
  by (induction f rule: unbound.induct) simp_all

lemma count_ids_unbound: "count_ids i (unbound f) = count_ids i f"
  by (induction i f rule: count_ids.induct) simp_all

lemma unbound_update_at: "unbound (update_at p (add_click h) f) = unbound f"
  by (induction p "add_click h" f rule: update_at.induct)
    (simp_all add: unbound_Cons add_click_def)

lemma unbound_jq_on_click: "unbound (jq_on_click h ps f) = unbound f"
  unfolding jq_on_click_def jq_each_def
  by (induction ps arbitrary: f) (simp_all add: unbound_update_at)

lemma first_path_append_left:
  "first_path i f = Some p \<Longrightarrow> first_path i (f @ r) = Some p"
  by (induction i f arbitrary: p rule: first_path.induct)
    (auto split: if_splits option.splits)

lemma update_at_first_path_left:
  "first_path i f = Some p \<Longrightarrow> update_at p g (f @ r) = update_at p g f @ r"
proof (induction i f arbitrary: p rule: first_path.induct)
  case (1 i)
  then show ?case by simp
next
  case (2 i t j s hs ks es)
  show ?case
  proof (cases "j = Some i")
    case True
    with 2 show ?thesis by auto
  next
    case nj: False
    show ?thesis
    proof (cases "first_path i ks")
      case None
      with nj "2.prems" obtain q where q: "first_path i es = Some q" and p: "p = shift_by 1 q"
        by auto
      from first_path_nonempty[OF q] obtain n q' where q': "q = n # q'"
        by (cases q) auto
      from "2.IH"(2)[OF nj None q] p q' show ?thesis by simp
    next
      case (Some q)
      with nj "2.prems" have p: "p = 0 # q" by simp
      from first_path_nonempty[OF Some] obtain n q' where q': "q = n # q'"
        by (cases q) auto
      with p show ?thesis by simp
    qed
  qed
qed

text \<open>Binding through \<open>$('#j')\<close> on a document that ends with one more element.\<close>

lemma jq_on_click_id_snoc:
  "jq_on_click h (jq_id j (f @ [e])) (f @ [e]) =
     (if count_ids j f = 0 then f @ jq_on_click h (jq_id j [e]) [e]
      else jq_on_click h (jq_id j f) f @ [e])"
proof (cases "first_path j f")
  case None
  then have c: "count_ids j f = 0" by (rule first_path_None)
  show ?thesis
  proof (cases "first_path j [e]")
    case n: None
    with c show ?thesis
      by (simp add: jq_id_def first_path_append jq_on_click_def jq_each_def)
  next
    case (Some p)
    from first_path_nonempty[OF Some] obtain n q where p: "p = n # q" by (cases p) auto
    with c Some show ?thesis
      by (simp add: jq_id_def first_path_append jq_on_click_def jq_each_def update_at_append)
  qed
next
  case (Some p)
  from first_path_Some[OF Some] have "count_ids j f \<noteq> 0" by simp
  with Some show ?thesis
    by (simp add: jq_id_def first_path_append_left jq_on_click_def jq_each_def
        update_at_first_path_left)
qed

lemma count_ids_jq_on_click: "count_ids i (jq_on_click h ps f) = count_ids i f"
  by (simp add: jq_on_click_def count_ids_jq_each keeps_ids_add_click)


lemma unbound_bind_links: "unbound (bind_links f) = unbound f"
  by (simp add: bind_links_def Let_def unbound_jq_on_click)

lemma count_ids_bind_links: "count_ids i (bind_links f) = count_ids i f"
  by (simp add: bind_links_def Let_def count_ids_jq_on_click)

lemma bind_links_widget_free: "widget_free f \<Longrightarrow> bind_links f = f"
  by (simp add: bind_links_def Let_def widget_free_def jq_id_def count_ids_0_first_path
      jq_on_click_def jq_each_def)

lemma control_widget: "control True True = widget False"
  by (simp add: control_def widget_def)

lemma unbound_control: "unbound [control u d] = [btn_html]"
  by (simp add: control_def btn_html_def)

lemma count_ids_control: "count_ids ''sync-floating-btn'' [control u d] = 1"
  by (simp add: control_def)

lemma without_control_unique:
  "count_ids ''sync-floating-btn'' f \<le> 1 \<Longrightarrow>
   count_ids ''sync-floating-btn'' (without_control f) = 0"
  unfolding without_control_def by (rule jq_remove_id_unique)

text \<open>The first element with the identifier is taken out with its subtree.\<close>

lemma without_control_at:
  assumes "count_ids ''sync-floating-btn'' f = 0" and "el_id e = Some ''sync-floating-btn''"
  shows "without_control (f @ e # g) = f @ g"
proof -
  from assms(2) have "first_path ''sync-floating-btn'' (e # g) = Some [0]"
    by (cases e) simp
  with assms(1) have "first_path ''sync-floating-btn'' (f @ e # g) = Some [length f]"
    by (simp add: first_path_append)
  then show ?thesis
    by (simp add: without_control_def jq_id_def jq_remove_def remove_at_last)
qed

lemma without_control_none:
  "count_ids ''sync-floating-btn'' f = 0 \<Longrightarrow> without_control f = f"
  by (simp add: without_control_def jq_id_def jq_remove_def count_ids_0_first_path)

text \<open>
  The document that \<open>create_floating_button\<close> leaves: the old document without the
  element that carried the identifier, and a fresh control behind it. A link of the
  control gets its handler unless an earlier element uses the identifier of the link.
\<close>

lemma create_body:
  assumes "count_ids ''sync-floating-btn'' (body st) \<le> 1"
  shows "body (create_floating_button st) =
           bind_links (without_control (body st))
           @ [control (count_ids ''float-sync-up'' (without_control (body st)) = 0)
                      (count_ids ''float-sync-down'' (without_control (body st)) = 0)]"
proof -
  let ?R = "without_control (body st)"
  let ?u = "count_ids ''float-sync-up'' ?R = 0"
  let ?d = "count_ids ''float-sync-down'' ?R = 0"
  let ?R2 = "jq_on_click Sync_up_click (jq_id ''float-sync-up'' ?R) ?R"
  let ?R3 = "jq_on_click Sync_down_click (jq_id ''float-sync-down'' ?R2) ?R2"
  from assms have c: "count_ids ''sync-floating-btn'' ?R = 0"
    by (rule without_control_unique)
  have d: "jq_desc ''sync-floating-btn'' ''button'' (?R @ [btn_html]) = [[length ?R, 0]]"
    by (simp add: jq_desc_def desc_paths_append desc_paths_outside c btn_html_def)
  have s1: "jq_on_click Button_click (jq_desc ''sync-floating-btn'' ''button'' (?R @ [btn_html]))
              (?R @ [btn_html]) = ?R @ [control False False]"
    unfolding d jq_on_click_def jq_each_def
    by (simp add: update_at_last btn_html_def add_click_def control_def)
  have e2: "jq_on_click Sync_up_click (jq_id ''float-sync-up'' [control False False])
              [control False False] = [control True False]"
    by (simp add: jq_id_def jq_on_click_def jq_each_def control_def add_click_def)
  have s2: "jq_on_click Sync_up_click (jq_id ''float-sync-up'' (?R @ [control False False]))
              (?R @ [control False False]) = ?R2 @ [control ?u False]"
    unfolding jq_on_click_id_snoc e2
    by (simp add: jq_id_def count_ids_0_first_path jq_on_click_def jq_each_def)
  have cd: "(count_ids ''float-sync-down'' ?R2 = 0) = ?d"
    by (simp add: count_ids_jq_on_click)
  have e3: "jq_on_click Sync_down_click (jq_id ''float-sync-down'' [control ?u False])
              [control ?u False] = [control ?u True]"
    by (simp add: jq_id_def jq_on_click_def jq_each_def control_def add_click_def)
  have s3: "jq_on_click Sync_down_click (jq_id ''float-sync-down'' (?R2 @ [control ?u False]))
              (?R2 @ [control ?u False]) = ?R3 @ [control ?u ?d]"
    unfolding jq_on_click_id_snoc e3
    using cd by (simp add: jq_id_def count_ids_0_first_path jq_on_click_def jq_each_def)
  have "body (create_floating_button st) = ?R3 @ [control ?u ?d]"
    unfolding create_floating_button_def Let_def on_body_def console_log_def
    by (simp add: without_control_def[symmetric] s1 s2 s3)
  then show ?thesis by (simp add: bind_links_def Let_def)
qed

text \<open>
  C4. With the runtime present and a session user other than \<open>'Guest'\<close>, on a page whose
  document holds at most one element with the identifier \<open>sync-floating-btn\<close> (none at
  page load, the control of an earlier run afterwards), the ready handler returns
  normally. The element that carried the identifier is gone with its subtree: in front
  of the last child, the document is the old document without that element
  (\<open>without_control\<close>), up to the handlers the run bound, and nothing there carries the
  identifier. The last child is a fresh control \<open>c\<close>, with the markup of \<open>btn_html\<close>. So
  exactly one element carries the identifier. Run a second time, on the page the first
  run left, the handler again returns normally and leaves the same document in front
  and the same subtree \<open>c\<close>, handlers included: again exactly one element carries the
  identifier. Where the old document without that element uses none of the control's
  identifiers, \<open>c\<close> is the control with its three handlers bound, nothing else was
  touched, and the second run leaves the very document the first run left.
\<close>

theorem exactly_one_floating_button:
  assumes "frappe st = Some fr" and "has_call fr" and "session fr = Some s"
    and "user s \<noteq> ''Guest''"
    and "count_ids ''sync-floating-btn'' (body st) \<le> 1"
  shows "\<exists>st1 st2 r1 r2 c.
           ready st = Inr st1 \<and> body st1 = r1 @ [c]
         \<and> unbound r1 = unbound (without_control (body st))
         \<and> count_ids ''sync-floating-btn'' r1 = 0
         \<and> unbound [c] = [btn_html]
         \<and> count_ids ''sync-floating-btn'' (body st1) = 1
         \<and> ready st1 = Inr st2 \<and> body st2 = r2 @ [c]
         \<and> unbound r2 = unbound r1
         \<and> count_ids ''sync-floating-btn'' (body st2) = 1
         \<and> (widget_free (without_control (body st)) \<longrightarrow>
               c = widget False \<and> r1 = without_control (body st) \<and> body st2 = body st1)"
proof -
  let ?i = "''sync-floating-btn''"
  let ?st0 = "console_log ''Sync App: Initializing...'' st"
  let ?st1 = "create_floating_button ?st0"
  let ?st1' = "console_log ''Sync App: Initializing...'' ?st1"
  let ?st2 = "create_floating_button ?st1'"
  let ?R = "without_control (body st)"
  let ?r1 = "bind_links ?R"
  let ?r2 = "bind_links ?r1"
  let ?c = "control (count_ids ''float-sync-up'' ?R = 0) (count_ids ''float-sync-down'' ?R = 0)"
  have r1: "ready st = Inr ?st1" using assms(1-4) by (simp add: ready_def)
  have b0: "body ?st0 = body st" by (simp add: console_log_def)
  have b1: "body ?st1 = ?r1 @ [?c]"
    using create_body[of ?st0] assms(5) unfolding b0 by simp
  have u1: "unbound ?r1 = unbound ?R" by (rule unbound_bind_links)
  have z1: "count_ids ?i ?r1 = 0"
    using without_control_unique[OF assms(5)] by (simp add: count_ids_bind_links)
  have c1: "count_ids ?i (body ?st1) = 1"
    unfolding b1 count_ids_append using z1 by (simp add: count_ids_control)
  have "frappe ?st1 = Some fr" using assms(1) by (simp add: create_frappe console_log_def)
  then have r2: "ready ?st1 = Inr ?st2" using assms(2-4) by (simp add: ready_def)
  have b1': "body ?st1' = ?r1 @ [?c]" using b1 by (simp add: console_log_def)
  have w: "without_control (?r1 @ ?c # []) = ?r1 @ []"
    using z1 by (intro without_control_at) (simp_all add: control_def)
  have c1': "count_ids ?i (body ?st1') \<le> 1" using c1 by (simp add: console_log_def)
  have w': "without_control (body ?st1') = ?r1" using w unfolding b1' by simp
  have b2: "body ?st2 = ?r2 @ [?c]"
    using create_body[OF c1'] unfolding w' by (simp add: count_ids_bind_links)
  have u2: "unbound ?r2 = unbound ?r1" by (rule unbound_bind_links)
  have c2: "count_ids ?i (body ?st2) = 1"
    unfolding b2 count_ids_append using z1
    by (simp add: count_ids_control count_ids_bind_links)
  have f: "?c = widget False \<and> ?r1 = ?R \<and> body ?st2 = body ?st1" if "widget_free ?R"
    using that b1 b2
    by (simp add: bind_links_widget_free control_widget[symmetric] widget_free_def)
  from r1 b1 u1 z1 unbound_control c1 r2 b2 u2 c2 f show ?thesis by blast
qed


theorem exactly_one_floating_button_witness:
  "frappe open_page = Some \<lparr>has_call = True, session = Some \<lparr>user = ''Administrator''\<rparr>\<rparr>
   \<and> count_ids ''sync-floating-btn'' (body open_page) \<le> 1
   \<and> body open_page = [navbar, widget True]
   \<and> widget_free (without_control (body open_page))
   \<and> (\<exists>st1 st2. ready open_page = Inr st1 \<and> body st1 = [navbar, widget False]
          \<and> count_ids ''sync-floating-btn'' (body st1) = 1
          \<and> ready st1 = Inr st2 \<and> body st2 = body st1
          \<and> count_ids ''sync-floating-btn'' (body st2) = 1)"
proof -
  have h: "frappe open_page =
             Some \<lparr>has_call = True, session = Some \<lparr>user = ''Administrator''\<rparr>\<rparr>"
    by (simp add: open_page_def mounted_page_def example_page_def)
  have b: "body open_page = [navbar, widget True]"
    by (simp add: open_page_def)
  have c: "count_ids ''sync-floating-btn'' (body open_page) \<le> 1"
    unfolding b by (simp add: navbar_def widget_def)
  have "without_control ([navbar] @ widget True # []) = [navbar] @ []"
    by (rule without_control_at) (simp_all add: navbar_def widget_def)
  then have w: "without_control (body open_page) = [navbar]"
    unfolding b by simp
  have f: "widget_free (without_control (body open_page))"
    unfolding w by (rule widget_free_navbar)
  have "has_call \<lparr>has_call = True, session = Some \<lparr>user = ''Administrator''\<rparr>\<rparr>"
    and "session \<lparr>has_call = True, session = Some \<lparr>user = ''Administrator''\<rparr>\<rparr>
           = Some \<lparr>user = ''Administrator''\<rparr>"
    and "user \<lparr>user = ''Administrator''\<rparr> \<noteq> ''Guest''"
    by simp_all
  from exactly_one_floating_button[OF h this c] obtain st1 st2 r1 c' where
    "ready open_page = Inr st1" "body st1 = r1 @ [c']"
    "count_ids ''sync-floating-btn'' (body st1) = 1"
    "ready st1 = Inr st2" "count_ids ''sync-floating-btn'' (body st2) = 1"
    "widget_free (without_control (body open_page)) \<longrightarrow>
       c' = widget False \<and> r1 = without_control (body open_page) \<and> body st2 = body st1"
    by blast
  with f w have "ready open_page = Inr st1 \<and> body st1 = [navbar, widget False]
      \<and> count_ids ''sync-floating-btn'' (body st1) = 1
      \<and> ready st1 = Inr st2 \<and> body st2 = body st1
      \<and> count_ids ''sync-floating-btn'' (body st2) = 1"
    by simp
  with h c b f show ?thesis by blast
qed

section \<open>Clicks on the mounted control\<close>

lemma jq_id_popup:
  "count_ids ''sync-popup-menu'' f = 0 \<Longrightarrow>
   jq_id ''sync-popup-menu'' (f @ widget s # g) = [[length f, 1]]"
  by (simp add: jq_id_def first_path_append widget_def)

lemma toggle_menu_widget:
  assumes "body st = f @ widget s # g" and "count_ids ''sync-popup-menu'' f = 0"
  shows "toggle_menu st = st\<lparr>body := f @ widget (\<not> s) # g\<rparr>"
proof -
  have "update_at [length f, 1] toggle_shown (f @ widget s # g) = f @ widget (\<not> s) # g"
    unfolding update_at_last by (simp add: widget_def toggle_shown_def set_shown_def)
  then show ?thesis
    using assms by (simp add: toggle_menu_def on_body_def jq_toggle_def jq_each_def jq_id_popup)
qed

lemma hide_menu_widget:
  assumes "body st = f @ widget s # g" and "count_ids ''sync-popup-menu'' f = 0"
  shows "hide_menu st = st\<lparr>body := f @ widget False # g\<rparr>"
proof -
  have "update_at [length f, 1] (set_shown False) (f @ widget s # g) = f @ widget False # g"
    unfolding update_at_last by (simp add: widget_def set_shown_def)
  then show ?thesis
    using assms by (simp add: hide_menu_def on_body_def jq_hide_def jq_each_def jq_id_popup)
qed

lemma popup_shown_widget:
  assumes "body st = f @ widget s # g" and "count_ids ''sync-popup-menu'' f = 0"
  shows "popup_shown st = s"
  using assms by (simp add: popup_shown_def first_path_append widget_def node_at_last)

lemma handlers_at_button: "handlers_at [length f, 0] (f @ widget s # g) = [Button_click]"
  by (simp add: handlers_at_def widget_def node_at_last)

lemma handlers_at_icon: "handlers_at [length f, 0, 0] (f @ widget s # g) = []"
  by (simp add: handlers_at_def widget_def node_at_last)

lemma propagation_path_hd:
  "q \<in> set (propagation_path (n # p)) \<Longrightarrow> \<exists>q'. q = n # q'"
  by (auto simp: propagation_path_def take_Cons split: nat.splits)

lemma propagation_path_2: "propagation_path [a, b] = [[a, b], [a]]"
  by (simp add: propagation_path_def upt_rec)

lemma propagation_path_3: "propagation_path [a, b, c] = [[a, b, c], [a, b], [a]]"
  by (simp add: propagation_path_def upt_rec)

text \<open>
  One click on the main button or on the icon inside it: the handler of the button is
  the only one that runs, it stops the propagation and toggles the popup.
\<close>

lemma click_button:
  assumes "body st = f @ widget s # g" and "count_ids ''sync-popup-menu'' f = 0"
    and "tgt = [length f, 0] \<or> tgt = [length f, 0, 0]"
  shows "click tgt st =
           \<lparr>ev = \<lparr>propagation_stopped = True, default_prevented = False\<rparr>,
            pg = st\<lparr>body := f @ widget (\<not> s) # g\<rparr>,
            ran = [(At_element [length f, 0], Button_click)]\<rparr>"
  using assms(3) toggle_menu_widget[OF assms(1,2)] assms(1)
  by (auto simp: click_def propagation_path_2 propagation_path_3 handlers_at_button
      handlers_at_icon run_all_def run_handler_def)

lemma click_seq_length [simp]: "length (click_seq ts st) = length ts"
  by (induction ts arbitrary: st) (simp_all add: Let_def)

text \<open>
  C7. The control is a child of \<open>body\<close>, behind a forest \<open>f\<close> that does not use the
  identifier of the popup, and \<open>ts\<close> is any sequence of clicks on the main button (or on
  its icon). \<open>st # map pg (click_seq ts st)\<close> lists the page before the first click and
  the page after each click. For each click \<open>k\<close> of the sequence, the popup is displayed
  after the click exactly when it was not displayed before it, and the only handler that
  ran is the one of the button, which stopped the propagation: no handler of the
  document ran. (\<open>create_mounts_widget\<close> and \<open>create_remounts_widget\<close> show that the
  ready handler leaves the control in this shape.)
\<close>

theorem button_click_toggles_popup:
  assumes "body st = f @ widget s # g" and "count_ids ''sync-popup-menu'' f = 0"
    and "set ts \<subseteq> {[length f, 0], [length f, 0, 0]}"
    and "k < length ts"
  shows "popup_shown ((st # map pg (click_seq ts st)) ! Suc k)
           = (\<not> popup_shown ((st # map pg (click_seq ts st)) ! k))
         \<and> ran (click_seq ts st ! k) = [(At_element [length f, 0], Button_click)]
         \<and> propagation_stopped (ev (click_seq ts st ! k))"
  using assms
proof (induction ts arbitrary: st s k)
  case Nil
  then show ?case by simp
next
  case (Cons t ts)
  from Cons.prems(3) have t: "t = [length f, 0] \<or> t = [length f, 0, 0]" by auto
  let ?st' = "st\<lparr>body := f @ widget (\<not> s) # g\<rparr>"
  note c = click_button[OF Cons.prems(1,2) t]
  have b': "body ?st' = f @ widget (\<not> s) # g" by simp
  show ?case
  proof (cases k)
    case 0
    with c popup_shown_widget[OF Cons.prems(1,2)] popup_shown_widget[OF b' Cons.prems(2)]
    show ?thesis by (simp add: Let_def)
  next
    case (Suc k')
    with Cons.prems have "k' < length ts" "set ts \<subseteq> {[length f, 0], [length f, 0, 0]}"
      by auto
    from Cons.IH[OF b' Cons.prems(2) this(2,1)] c Suc show ?thesis
      by (simp add: Let_def)
  qed
qed

theorem button_click_toggles_popup_witness:
  "body mounted_page = [navbar] @ widget False # []
   \<and> count_ids ''sync-popup-menu'' [navbar] = 0
   \<and> popup_shown
        ((mounted_page # map pg (click_seq [[1, 0], [1, 0, 0]] mounted_page)) ! Suc 1)
       = (\<not> popup_shown
              ((mounted_page # map pg (click_seq [[1, 0], [1, 0, 0]] mounted_page)) ! 1))
   \<and> ran (click_seq [[1, 0], [1, 0, 0]] mounted_page ! 1) = [(At_element [1, 0], Button_click)]
   \<and> propagation_stopped (ev (click_seq [[1, 0], [1, 0, 0]] mounted_page ! 1))"
proof -
  have h1: "body mounted_page = [navbar] @ widget False # []"
    by (simp add: mounted_page_def)
  have h2: "count_ids ''sync-popup-menu'' [navbar] = 0"
    by (simp add: navbar_def)
  have h3: "set [[1, 0], [1, 0, 0]] \<subseteq> {[length [navbar], 0], [length [navbar], 0, 0]}"
    by simp
  have h4: "(1::nat) < length [[1, 0], [1, 0, 0::nat]]"
    by simp
  have l: "length [navbar] = 1" by simp
  from button_click_toggles_popup[OF h1 h2 h3 h4] h1 h2 show ?thesis
    unfolding l by blast
qed

section \<open>Clicks outside the control\<close>

lemma no_handlers_Cons:
  "no_handlers (e # es) \<longleftrightarrow> el_click e = [] \<and> no_handlers (el_kids e) \<and> no_handlers es"
  by (cases e) simp

lemma no_handlers_node_at:
  "no_handlers f \<Longrightarrow> node_at p f = Some e \<Longrightarrow> el_click e = []"
  by (induction p f rule: node_at.induct) (simp_all add: no_handlers_Cons)

lemma handlers_at_no_handlers: "no_handlers f \<Longrightarrow> handlers_at p f = []"
  by (auto simp: handlers_at_def dest: no_handlers_node_at split: option.splits)

lemma handlers_at_outside:
  assumes "no_handlers f" and "no_handlers g" and "i \<noteq> length f"
  shows "handlers_at (i # q) (f @ w # g) = []"
proof (cases "i < length f")
  case True
  then have "node_at (i # q) (f @ w # g) = node_at (i # q) f" by (rule node_at_append_left)
  with handlers_at_no_handlers[OF assms(1), of "i # q"] show ?thesis
    by (simp add: handlers_at_def)
next
  case False
  define m where "m = i - Suc (length f)"
  from False assms(3) have i: "i = length f + Suc m" by (simp add: m_def)
  have "node_at (i # q) (f @ w # g) = node_at (Suc m # q) (w # g)"
    unfolding i by (rule node_at_append_right)
  also have "\<dots> = node_at (m # q) g" by simp
  finally show ?thesis
    using handlers_at_no_handlers[OF assms(2), of "m # q"] by (simp add: handlers_at_def)
qed

text \<open>Where no handler is bound along the way, the event reaches the document.\<close>

lemma bubble_no_handlers:
  "(\<And>q. q \<in> set ps \<Longrightarrow> handlers_at q (body (pg d)) = []) \<Longrightarrow>
   \<not> propagation_stopped (ev d) \<Longrightarrow>
   bubble ps d = run_all At_document (document_click (pg d)) d"
  by (induction ps) (simp_all add: run_all_def)

lemma run_all_document_hide:
  assumes "body (pg d) = f @ widget s # g" and "count_ids ''sync-popup-menu'' f = 0"
  shows "run_all At_document (replicate (Suc n) Document_click) d =
           \<lparr>ev = ev d, pg = (pg d)\<lparr>body := f @ widget False # g\<rparr>,
            ran = ran d @ replicate (Suc n) (At_document, Document_click)\<rparr>"
  using assms
proof (induction n arbitrary: d s)
  case 0
  with hide_menu_widget[OF 0] show ?case
    by (simp add: run_all_def run_handler_def)
next
  case (Suc n)
  let ?d1 = "run_handler At_document d Document_click"
  have d1: "?d1 = \<lparr>ev = ev d, pg = (pg d)\<lparr>body := f @ widget False # g\<rparr>,
                    ran = ran d @ [(At_document, Document_click)]\<rparr>"
    using hide_menu_widget[OF Suc.prems] by (simp add: run_handler_def)
  then have b1: "body (pg ?d1) = f @ widget False # g" by simp
  have "run_all At_document (replicate (Suc (Suc n)) Document_click) d
          = run_all At_document (replicate (Suc n) Document_click) ?d1"
    by (simp add: run_all_def)
  also note Suc.IH[OF b1 Suc.prems(2)]
  finally show ?case using d1 by (simp add: replicate_app_Cons_same)
qed

text \<open>
  C8. The control is a child of \<open>body\<close> with its popup displayed, the forest \<open>f\<close> before it
  does not use the identifier of the popup, none of this script's handlers is bound in
  the forests before and behind it, and the document has the dismiss handlers of one or
  more runs of the ready handler. A click on \<open>body\<close> or anywhere below another child of
  \<open>body\<close> changes the page in one way only: the popup is hidden.
\<close>

theorem outside_click_hides_popup:
  assumes "body st = f @ widget True # g" and "count_ids ''sync-popup-menu'' f = 0"
    and "no_handlers f" and "no_handlers g"
    and "document_click st = replicate (Suc n) Document_click"
    and "outside_control (length f) tgt"
  shows "popup_shown st \<and> \<not> popup_shown (pg (click tgt st))
         \<and> pg (click tgt st) = st\<lparr>body := f @ widget False # g\<rparr>"
proof -
  let ?d = "\<lparr>ev = \<lparr>propagation_stopped = False, default_prevented = False\<rparr>,
            pg = st, ran = []\<rparr>"
  have "handlers_at q (body (pg ?d)) = []" if "q \<in> set (propagation_path tgt)" for q
  proof (cases tgt)
    case Nil
    with that show ?thesis by (simp add: propagation_path_def)
  next
    case (Cons i p)
    with that obtain q' where "q = i # q'" using propagation_path_hd by blast
    moreover from Cons assms(6) have "i \<noteq> length f" by (simp add: outside_control_def)
    ultimately show ?thesis using assms(1,3,4) by (simp add: handlers_at_outside)
  qed
  then have "click tgt st = run_all At_document (document_click (pg ?d)) ?d"
    unfolding click_def by (rule bubble_no_handlers) simp_all
  also have "\<dots> = \<lparr>ev = ev ?d, pg = (pg ?d)\<lparr>body := f @ widget False # g\<rparr>,
            ran = ran ?d @ replicate (Suc n) (At_document, Document_click)\<rparr>"
    using assms(5) run_all_document_hide[of ?d f True g n] assms(1,2) by simp
  finally have c: "pg (click tgt st) = st\<lparr>body := f @ widget False # g\<rparr>" by simp
  have "body (st\<lparr>body := f @ widget False # g\<rparr>) = f @ widget False # g" by simp
  from popup_shown_widget[OF this assms(2)] popup_shown_widget[OF assms(1,2)] c
  show ?thesis by simp
qed

theorem outside_click_hides_popup_witness:
  "body open_page = [navbar] @ widget True # []
   \<and> no_handlers [navbar]
   \<and> document_click open_page = replicate (Suc 0) Document_click
   \<and> outside_control (length [navbar]) [0, 0]
   \<and> popup_shown open_page \<and> \<not> popup_shown (pg (click [0, 0] open_page))
   \<and> pg (click [0, 0] open_page) = mounted_page"
proof -
  have h1: "body open_page = [navbar] @ widget True # []"
    by (simp add: open_page_def)
  have h2: "count_ids ''sync-popup-menu'' [navbar] = 0"
    by (simp add: navbar_def)
  have h3: "no_handlers [navbar]"
    by (simp add: navbar_def)
  have h3': "no_handlers []"
    by simp
  have h4: "document_click open_page = replicate (Suc 0) Document_click"
    by (simp add: open_page_def mounted_page_def)
  have h5: "outside_control (length [navbar]) [0, 0]"
    by (simp add: outside_control_def)
  have m: "open_page\<lparr>body := [navbar] @ widget False # []\<rparr> = mounted_page"
    by (simp add: open_page_def mounted_page_def)
  from outside_click_hides_popup[OF h1 h2 h3 h3' h4 h5] h1 h3 h4 h5 show ?thesis
    unfolding m by blast
qed

section \<open>From a click on a menu link to the notice\<close>

lemma handlers_at_links:
  "handlers_at [length f, Suc 0, 0] (f @ widget s # g) = [Sync_up_click]"
  "handlers_at [length f, Suc 0, Suc 0] (f @ widget s # g) = [Sync_down_click]"
  "handlers_at [length f, Suc 0] (f @ widget s # g) = []"
  "handlers_at [length f] (f @ widget s # g) = []"
  by (simp_all add: handlers_at_def widget_def node_at_last)

lemma run_all_document_hidden:
  assumes "body (pg d) = f @ widget False # g" and "count_ids ''sync-popup-menu'' f = 0"
  shows "run_all At_document (replicate n Document_click) d =
           d\<lparr>ran := ran d @ replicate n (At_document, Document_click)\<rparr>"
proof (cases n)
  case 0
  then show ?thesis by (simp add: run_all_def)
next
  case (Suc m)
  from assms(1) have "(pg d)\<lparr>body := f @ widget False # g\<rparr> = pg d"
    by (metis page.surjective page.update_convs(2))
  with run_all_document_hide[OF assms, of m] Suc show ?thesis by simp
qed

text \<open>
  A click on the Sync Up link: its handler prevents the default action, hides the popup
  and starts the action flow; the event then reaches the document, whose dismiss
  handlers find the popup hidden. The Sync Down link behaves alike.
\<close>

lemma click_sync_up:
  assumes "body st = f @ widget s # g" and "count_ids ''sync-popup-menu'' f = 0"
    and "document_click st = replicate n Document_click"
  shows "click [length f, 1, 0] st =
           \<lparr>ev = \<lparr>propagation_stopped = False, default_prevented = True\<rparr>,
            pg = run_sync_up (st\<lparr>body := f @ widget False # g\<rparr>),
            ran = (At_element [length f, 1, 0], Sync_up_click)
                  # replicate n (At_document, Document_click)\<rparr>"
proof -
  let ?st1 = "run_sync_up (st\<lparr>body := f @ widget False # g\<rparr>)"
  let ?d1 = "\<lparr>ev = \<lparr>propagation_stopped = False, default_prevented = True\<rparr>, pg = ?st1,
             ran = [(At_element [length f, 1, 0], Sync_up_click)]\<rparr>"
  have b1: "body (pg ?d1) = f @ widget False # g"
    by (simp add: run_sync_up_opens_prompt)
  have dc: "document_click (pg ?d1) = replicate n Document_click"
    using assms(3) by (simp add: run_sync_up_opens_prompt)
  have "click [length f, 1, 0] st = bubble [[length f, 1], [length f]] ?d1"
    using assms(1) hide_menu_widget[OF assms(1,2)]
    by (simp add: click_def propagation_path_3 handlers_at_links run_all_def run_handler_def)
  also have "\<dots> = run_all At_document (document_click (pg ?d1)) ?d1"
    using b1 by (intro bubble_no_handlers) (auto simp: handlers_at_links)
  also have "\<dots> = ?d1\<lparr>ran := ran ?d1 @ replicate n (At_document, Document_click)\<rparr>"
    unfolding dc by (rule run_all_document_hidden[OF b1 assms(2)])
  finally show ?thesis by simp
qed

lemma click_sync_down:
  assumes "body st = f @ widget s # g" and "count_ids ''sync-popup-menu'' f = 0"
    and "document_click st = replicate n Document_click"
  shows "click [length f, 1, 1] st =
           \<lparr>ev = \<lparr>propagation_stopped = False, default_prevented = True\<rparr>,
            pg = run_sync_down (st\<lparr>body := f @ widget False # g\<rparr>),
            ran = (At_element [length f, 1, 1], Sync_down_click)
                  # replicate n (At_document, Document_click)\<rparr>"
proof -
  let ?st1 = "run_sync_down (st\<lparr>body := f @ widget False # g\<rparr>)"
  let ?d1 = "\<lparr>ev = \<lparr>propagation_stopped = False, default_prevented = True\<rparr>, pg = ?st1,
             ran = [(At_element [length f, 1, 1], Sync_down_click)]\<rparr>"
  have b1: "body (pg ?d1) = f @ widget False # g"
    by (simp add: run_sync_down_opens_prompt)
  have dc: "document_click (pg ?d1) = replicate n Document_click"
    using assms(3) by (simp add: run_sync_down_opens_prompt)
  have "click [length f, 1, 1] st = bubble [[length f, 1], [length f]] ?d1"
    using assms(1) hide_menu_widget[OF assms(1,2)]
    by (simp add: click_def propagation_path_3 handlers_at_links run_all_def run_handler_def)
  also have "\<dots> = run_all At_document (document_click (pg ?d1)) ?d1"
    using b1 by (intro bubble_no_handlers) (auto simp: handlers_at_links)
  also have "\<dots> = ?d1\<lparr>ran := ran ?d1 @ replicate n (At_document, Document_click)\<rparr>"
    unfolding dc by (rule run_all_document_hidden[OF b1 assms(2)])
  finally show ?thesis by simp
qed

text \<open>
  The whole flow on the example page: open the popup, click Sync Up, accept the prompt,
  receive a response without error and with the message \<open>OK\<close>.
\<close>

lemma sync_up_flow_example:
  "respond 0 \<lparr>exc = JUndefined, message = JStr ''OK''\<rparr>
     (answer_confirm 0 True (pg (click [1, 1, 0] (pg (click [1, 0] mounted_page)))))
   = mounted_page\<lparr>calls := [push_call], notices := [JStr ''OK'']\<rparr>"
proof -
  have b: "body mounted_page = [navbar] @ widget False # []"
    and c: "count_ids ''sync-popup-menu'' [navbar] = 0"
    and l: "length [navbar] = 1"
    by (simp_all add: mounted_page_def navbar_def)
  have "pg (click [length [navbar], 0] mounted_page)
          = mounted_page\<lparr>body := [navbar] @ widget (\<not> False) # []\<rparr>"
    by (subst click_button[OF b c]) simp_all
  then have o: "pg (click [1, 0] mounted_page) = open_page"
    unfolding l by (simp add: open_page_def)
  have bo: "body open_page = [navbar] @ widget True # []"
    and dc: "document_click open_page = replicate 1 Document_click"
    by (simp_all add: open_page_def mounted_page_def)
  have m: "open_page\<lparr>body := [navbar] @ widget False # []\<rparr> = mounted_page"
    by (simp add: open_page_def mounted_page_def)
  have "pg (click [length [navbar], 1, 0] open_page)
          = run_sync_up (open_page\<lparr>body := [navbar] @ widget False # []\<rparr>)"
    by (subst click_sync_up[OF bo c dc]) simp
  then have s: "pg (click [1, 1, 0] open_page) = run_sync_up mounted_page"
    unfolding l m .
  have d: "dialogs mounted_page = []" and k: "calls mounted_page = []"
    and n: "notices mounted_page = []"
    by (simp_all add: mounted_page_def example_page_def)
  have a: "answer_confirm 0 True (run_sync_up mounted_page) = mounted_page\<lparr>calls := [push_call]\<rparr>"
    by (simp add: run_sync_up_opens_prompt answer_confirm_def frappe_call_def d k push_call_def)
  have "respond 0 \<lparr>exc = JUndefined, message = JStr ''OK''\<rparr> (mounted_page\<lparr>calls := [push_call]\<rparr>)
          = mounted_page\<lparr>calls := [push_call], notices := [JStr ''OK'']\<rparr>"
    by (simp add: respond_def push_call_def frappe_msgprint_def n)
  with o s a show ?thesis by simp
qed

end
